theory Spec2Isabelle
  imports Main
begin

section \<open>Strings\<close>

text \<open>
  A JavaScript string is modelled as a \<open>string\<close> (a list of characters). The three
  case operations the program uses (\<open>String.prototype.toLowerCase\<close>,
  \<open>String.prototype.toUpperCase\<close> and the regular expression \<open>/^\p{Lu}/u\<close>) are
  modelled on the letters A-Z and a-z, where they are exact; every other character is
  taken to have no case, which JavaScript does not promise (it knows the upper-case
  letters of all of Unicode, and \<open>toUpperCase\<close> can lengthen a string). The static
  pronoun table holds only the letters a-z, so a sample matches a word of the table
  in the program exactly when it does here.
\<close>

definition upperLetters :: "string" where
  "upperLetters = ''ABCDEFGHIJKLMNOPQRSTUVWXYZ''"

definition lowerLetters :: "string" where
  "lowerLetters = ''abcdefghijklmnopqrstuvwxyz''"

definition lowerChar :: "char \<Rightarrow> char" where
  "lowerChar c = (case map_of (zip upperLetters lowerLetters) c of Some d \<Rightarrow> d | None \<Rightarrow> c)"

definition upperChar :: "char \<Rightarrow> char" where
  "upperChar c = (case map_of (zip lowerLetters upperLetters) c of Some d \<Rightarrow> d | None \<Rightarrow> c)"

definition toLowerCase :: "string \<Rightarrow> string" where
  "toLowerCase s = map lowerChar s"

definition toUpperCase :: "string \<Rightarrow> string" where
  "toUpperCase s = map upperChar s"

text \<open>\<open>/^\p{Lu}/u.test(s)\<close>: the string starts with an upper-case letter.\<close>

definition startsWithLu :: "string \<Rightarrow> bool" where
  "startsWithLu s = (case s of [] \<Rightarrow> False | c # _ \<Rightarrow> c \<in> set upperLetters)"

section \<open>The pronoun table\<close>

text \<open>
  A slot of an \<open>Entry\<close> is a string or one of the two symbols \<open>ORIGINAL\<close> and
  \<open>NAME\<close>. An \<open>Entry\<close> is a JavaScript array: the table's entries have five slots, an
  entry built from a remote response has two or more.
\<close>

datatype slot = Lit string | ORIGINAL | NAME

type_synonym Entry = "slot list"

definition lits :: "string list \<Rightarrow> Entry" where
  "lits ws = map Lit ws"

text \<open>The object literal \<open>pronouns\<close>, in the order of its keys.\<close>

definition pronouns :: "(string \<times> Entry) list" where
  "pronouns =
    [(''ae'', lits [''ae'', ''aer'', ''aer'', ''aers'', ''aerself'']),
     (''ey'', lits [''ey'', ''em'', ''eir'', ''eirs'', ''emself'']),
     (''fae'', lits [''fae'', ''faer'', ''faer'', ''faers'', ''faerself'']),
     (''he'', lits [''he'', ''him'', ''his'', ''his'', ''himself'']),
     (''it'', lits [''it'', ''it'', ''it'', ''its'', ''itself'']),
     (''ne'', lits [''ne'', ''nem'', ''nir'', ''nirs'', ''nemself'']),
     (''per'', lits [''per'', ''per'', ''pers'', ''pers'', ''perself'']),
     (''she'', lits [''she'', ''her'', ''her'', ''hers'', ''herself'']),
     (''sie'', lits [''sie'', ''sir'', ''hir'', ''hirs'', ''hirself'']),
     (''they'', lits [''they'', ''them'', ''their'', ''theirs'', ''themself'']),
     (''ve'', lits [''ve'', ''ver'', ''vis'', ''vers'', ''verself'']),
     (''xe'', lits [''xe'', ''xem'', ''xyr'', ''xyrs'', ''xemself'']),
     (''ze'', lits [''ze'', ''hir'', ''hir'', ''hirs'', ''hirself'']),
     (''ze2'', lits [''ze'', ''zir'', ''zir'', ''zirs'', ''zirself'']),
     (''zie'', lits [''zie'', ''zim'', ''zir'', ''zirs'', ''zirself'']),
     (''unknown'', [ORIGINAL, ORIGINAL, ORIGINAL, ORIGINAL, ORIGINAL]),
     (''any'', [ORIGINAL, ORIGINAL, ORIGINAL, ORIGINAL, ORIGINAL]),
     (''none'', [NAME, NAME, NAME, NAME, NAME])]"

definition pronounDbMap :: "(string \<times> string) list" where
  "pronounDbMap =
    [(''unspecified'', ''unknown''),
     (''hh'', ''he''), (''hi'', ''he''), (''hs'', ''he''), (''ht'', ''he''),
     (''ih'', ''it''), (''ii'', ''it''), (''is'', ''it''), (''it'', ''it''),
     (''shh'', ''she''), (''sh'', ''she''), (''si'', ''she''), (''st'', ''she''),
     (''th'', ''they''), (''ti'', ''they''), (''ts'', ''they''), (''tt'', ''they''),
     (''any'', ''any''),
     (''other'', ''unknown''),
     (''ask'', ''unknown''),
     (''avoid'', ''none'')]"

text \<open>
  \<open>lookupPronouns\<close>: \<open>mapped ? pronouns[mapped] : pronouns[value]\<close>. The test
  \<open>mapped ?\<close> is JavaScript truthiness: the alias exists and is not the empty string.
  (A key inherited from \<open>Object.prototype\<close>, such as \<open>constructor\<close>, gives a truthy
  \<open>mapped\<close> that is no key of \<open>pronouns\<close>, so the result is \<open>undefined\<close> there as
  well, as it is in this model, where such a key is in neither table.)
\<close>

definition lookupPronouns :: "string \<Rightarrow> Entry option" where
  "lookupPronouns v =
    (case map_of pronounDbMap v of
       Some mapped \<Rightarrow> if mapped \<noteq> [] then map_of pronouns mapped else map_of pronouns v
     | None \<Rightarrow> map_of pronouns v)"

definition ENTRY_FORMATS :: "string list" where
  "ENTRY_FORMATS = [''s'', ''o'', ''pa'', ''pp'', ''r'']"

definition PRONOUN_FORMATS :: "string list" where
  "PRONOUN_FORMATS = [''n'', ''np'', ''nr''] @ ENTRY_FORMATS"

section \<open>Arrays\<close>

text \<open>\<open>Array.prototype.indexOf\<close>: the first index holding the element, or \<open>-1\<close>.\<close>

fun indexOf :: "'a list \<Rightarrow> 'a \<Rightarrow> int" where
  "indexOf [] x = -1"
| "indexOf (y # ys) x =
     (if y = x then 0 else (let i = indexOf ys x in if i = -1 then -1 else i + 1))"

text \<open>\<open>xs[i]\<close> for an index \<open>i \<ge> 0\<close>: \<open>undefined\<close> (here \<open>None\<close>) out of range.\<close>

definition at_index :: "'a list \<Rightarrow> int \<Rightarrow> 'a option" where
  "at_index xs i = (if 0 \<le> i \<and> nat i < length xs then Some (xs ! nat i) else None)"

section \<open>The resolution engine\<close>

record PronounData =
  identity :: string
  data_pronouns :: "Entry option"

datatype js_error = TypeError

definition getIdentityInForm :: "string \<Rightarrow> string \<Rightarrow> string" where
  "getIdentityInForm form ident =
    (if form = ''np'' \<or> form = ''pa'' \<or> form = ''pp'' then ident @ [CHR 0x27] @ ''s''
     else if form = ''nr'' \<or> form = ''r'' then ident @ [CHR 0x27] @ ''s self''
     else ident)"

text \<open>
  \<open>getPronounInForm\<close>. \<open>pronoun[0]\<close> is \<open>undefined\<close> when \<open>pronoun\<close> is the empty
  string, and the call of \<open>toUpperCase\<close> on it throws a \<open>TypeError\<close>.
\<close>

definition getPronounInForm :: "string \<Rightarrow> PronounData \<Rightarrow> string \<Rightarrow> js_error + string" where
  "getPronounInForm form data fallback =
    (case data_pronouns data of
       Some entry \<Rightarrow>
         (let formIndex = indexOf ENTRY_FORMATS form in
          if formIndex \<noteq> -1 then
            (case at_index entry formIndex of
               Some (Lit pronoun) \<Rightarrow>
                 if startsWithLu fallback then
                   (case pronoun of
                      [] \<Rightarrow> Inl TypeError
                    | c # cs \<Rightarrow> Inr (toUpperCase [c] @ cs))
                 else Inr pronoun
             | Some ORIGINAL \<Rightarrow> Inr fallback
             | Some NAME \<Rightarrow> Inr (getIdentityInForm form (identity data))
             | None \<Rightarrow> Inr fallback)
          else Inr fallback)
     | None \<Rightarrow> Inr fallback)"

definition changeGender :: "string \<Rightarrow> PronounData \<Rightarrow> string \<Rightarrow> js_error + string" where
  "changeGender form data fallback =
    (if form = ''n'' \<or> form = ''np'' \<or> form = ''nr''
     then Inr (getIdentityInForm form (identity data))
     else getPronounInForm form data fallback)"

text \<open>
  \<open>inferForm\<close>: one option per entry of the table that holds the word (the index of its
  first slot holding it); a form only when there is exactly one option.
\<close>

definition inferForm :: "string \<Rightarrow> string option" where
  "inferForm sample =
    (let pronoun = toLowerCase sample;
         options = filter (\<lambda>i. i \<noteq> -1) (map (\<lambda>p. indexOf p (Lit pronoun)) (map snd pronouns))
     in if length options = 1 then at_index ENTRY_FORMATS (hd options) else None)"

text \<open>
  Where a word stands in the table: the slots holding it (key of the entry and position),
  and the entries holding it in some slot.
\<close>

definition positions :: "Entry \<Rightarrow> string \<Rightarrow> nat list" where
  "positions e w = filter (\<lambda>i. e ! i = Lit w) [0..<length e]"

definition slots_holding :: "string \<Rightarrow> (string \<times> nat) list" where
  "slots_holding w = concat (map (\<lambda>(k, e). map (Pair k) (positions e w)) pronouns)"

definition entries_holding :: "string \<Rightarrow> (string \<times> Entry) list" where
  "entries_holding w = filter (\<lambda>(k, e). Lit w \<in> set e) pronouns"

section \<open>The reference registry\<close>

text \<open>
  \<open>RefManager\<close>. A JavaScript \<open>Set\<close> keeps its elements in insertion order, so it is a
  list without repetitions; a \<open>Map\<close> is a partial function. Elements (\<open>'e\<close>) and
  listener functions (\<open>'f\<close>) are compared by identity. \<open>queueMicrotask\<close> appends to the
  queue \<open>microtasks\<close>, which runs first in, first out.

  What a listener function does when called is outside the registry. Every call is
  recorded in \<open>delivered\<close>, and a call may throw: whether it does is given by a
  function \<open>throws\<close> of the calls made so far, the listener and its two arguments. A
  call that throws ends the task that made it, and is recorded in \<open>uncaught\<close> as
  well. (The listeners of this program, \<open>PNounElement.onReferencedElementChanged\<close>,
  do not call the registry; they throw when their call of \<open>changeGender\<close> throws.)
\<close>

type_synonym ('e, 'f) call = "'f \<times> 'e option \<times> 'e option"

type_synonym ('e, 'f) throws = "('e, 'f) call list \<Rightarrow> 'f \<Rightarrow> 'e option \<Rightarrow> 'e option \<Rightarrow> bool"

datatype ('e, 'f) task =
    Notify string "'e option" "'e option"
  | Replay 'f "'e option"

record ('e, 'f) RefManager =
  refMap :: "string \<rightharpoonup> 'e list"
  listenerMap :: "string \<rightharpoonup> 'f list"
  microtasks :: "('e, 'f) task list"
  delivered :: "('e, 'f) call list"
  uncaught :: "('e, 'f) call list"

definition newRefManager :: "('e, 'f) RefManager" where
  "newRefManager =
    \<lparr>refMap = Map.empty, listenerMap = Map.empty, microtasks = [], delivered = [], uncaught = []\<rparr>"

text \<open>\<open>Set.prototype.add\<close> and \<open>Set.prototype.delete\<close>.\<close>

definition set_add :: "'a list \<Rightarrow> 'a \<Rightarrow> 'a list" where
  "set_add xs x = (if x \<in> set xs then xs else xs @ [x])"

definition set_delete :: "'a list \<Rightarrow> 'a \<Rightarrow> 'a list" where
  "set_delete xs x = removeAll x xs"

text \<open>\<open>get\<close>: \<open>refs && refs.values().next().value\<close>, the oldest registrant.\<close>

definition get :: "('e, 'f) RefManager \<Rightarrow> string \<Rightarrow> 'e option" where
  "get m r = (case refMap m r of None \<Rightarrow> None | Some refs \<Rightarrow> (case refs of [] \<Rightarrow> None | x # _ \<Rightarrow> Some x))"

definition queueMicrotask :: "('e, 'f) task \<Rightarrow> ('e, 'f) RefManager \<Rightarrow> ('e, 'f) RefManager" where
  "queueMicrotask t m = m\<lparr>microtasks := microtasks m @ [t]\<rparr>"

definition add :: "string \<Rightarrow> 'e \<Rightarrow> ('e, 'f) RefManager \<Rightarrow> ('e, 'f) RefManager" where
  "add r el m =
    (case refMap m r of
       Some refs \<Rightarrow> m\<lparr>refMap := (refMap m)(r \<mapsto> set_add refs el)\<rparr>
     | None \<Rightarrow> queueMicrotask (Notify r None (Some el)) (m\<lparr>refMap := (refMap m)(r \<mapsto> [el])\<rparr>))"

definition remove :: "string \<Rightarrow> 'e \<Rightarrow> ('e, 'f) RefManager \<Rightarrow> ('e, 'f) RefManager" where
  "remove r el m =
    (case refMap m r of
       Some refs \<Rightarrow>
         (let first = (get m r = Some el);
              refs' = set_delete refs el;
              m' = m\<lparr>refMap := (if refs' = [] then (refMap m)(r := None) else (refMap m)(r \<mapsto> refs'))\<rparr>
          in if first then queueMicrotask (Notify r (Some el) (get m' r)) m' else m')
     | None \<Rightarrow> m)"

definition on :: "string \<Rightarrow> 'f \<Rightarrow> ('e, 'f) RefManager \<Rightarrow> ('e, 'f) RefManager" where
  "on r fn m =
    (let m' = (case listenerMap m r of
                 Some listeners \<Rightarrow> m\<lparr>listenerMap := (listenerMap m)(r \<mapsto> set_add listeners fn)\<rparr>
               | None \<Rightarrow> m\<lparr>listenerMap := (listenerMap m)(r \<mapsto> [fn])\<rparr>)
     in queueMicrotask (Replay fn (get m' r)) m')"

definition off :: "string \<Rightarrow> 'f \<Rightarrow> ('e, 'f) RefManager \<Rightarrow> ('e, 'f) RefManager" where
  "off r fn m =
    (case listenerMap m r of
       Some listeners \<Rightarrow>
         (let listeners' = set_delete listeners fn
          in m\<lparr>listenerMap := (if listeners' = [] then (listenerMap m)(r := None)
                                else (listenerMap m)(r \<mapsto> listeners'))\<rparr>)
     | None \<Rightarrow> m)"

text \<open>
  \<open>listeners.forEach(fn => fn(oldElement, newElement))\<close>: the listeners are called in
  the order of the set, and there is no \<open>try\<close> around the call, so the first call
  that throws ends the loop: the listeners after it are not called.
\<close>

fun forEach :: "('e, 'f) throws \<Rightarrow> 'e option \<Rightarrow> 'e option \<Rightarrow> 'f list \<Rightarrow> ('e, 'f) RefManager \<Rightarrow> ('e, 'f) RefManager" where
  "forEach throws oldElement newElement [] m = m"
| "forEach throws oldElement newElement (fn # fns) m =
     (if throws (delivered m) fn oldElement newElement
      then m\<lparr>delivered := delivered m @ [(fn, oldElement, newElement)],
             uncaught := uncaught m @ [(fn, oldElement, newElement)]\<rparr>
      else forEach throws oldElement newElement fns
             (m\<lparr>delivered := delivered m @ [(fn, oldElement, newElement)]\<rparr>))"

definition notify :: "('e, 'f) throws \<Rightarrow> string \<Rightarrow> 'e option \<Rightarrow> 'e option \<Rightarrow> ('e, 'f) RefManager \<Rightarrow> ('e, 'f) RefManager" where
  "notify throws r oldElement newElement m =
    (case listenerMap m r of
       Some listeners \<Rightarrow> forEach throws oldElement newElement listeners m
     | None \<Rightarrow> m)"

text \<open>
  Running the queued microtasks, oldest first: \<open>() => this.notify(ref, old, new)\<close> and
  the replay \<open>() => fn(undefined, el)\<close>. An exception ends its own task only.
\<close>

fun run_task :: "('e, 'f) throws \<Rightarrow> ('e, 'f) task \<Rightarrow> ('e, 'f) RefManager \<Rightarrow> ('e, 'f) RefManager" where
  "run_task throws (Notify r oldElement newElement) m = notify throws r oldElement newElement m"
| "run_task throws (Replay fn el) m = forEach throws None el [fn] m"

fun run_tasks :: "('e, 'f) throws \<Rightarrow> ('e, 'f) task list \<Rightarrow> ('e, 'f) RefManager \<Rightarrow> ('e, 'f) RefManager" where
  "run_tasks throws [] m = m"
| "run_tasks throws (t # ts) m = run_tasks throws ts (run_task throws t m)"

definition run_microtasks :: "('e, 'f) throws \<Rightarrow> ('e, 'f) RefManager \<Rightarrow> ('e, 'f) RefManager" where
  "run_microtasks throws m = run_tasks throws (microtasks m) (m\<lparr>microtasks := []\<rparr>)"

text \<open>What one listener function has been called with, in order.\<close>

definition received :: "'f \<Rightarrow> ('e, 'f) RefManager \<Rightarrow> ('e option \<times> 'e option) list" where
  "received fn m = map snd (filter (\<lambda>d. fst d = fn) (delivered m))"

text \<open>
  One behaviour of the listeners: the listener \<open>g\<close> throws whenever it is told of the
  new holder \<open>n\<close>, and no other call throws. (A \<open>p-noun\<close> element does so when
  \<open>changeGender\<close> throws on the pronoun data of the new holder.)
\<close>

definition throws_on :: "'f \<Rightarrow> 'e option \<Rightarrow> ('e, 'f) throws" where
  "throws_on g n h fn oldElement newElement = (fn = g \<and> newElement = n)"

section \<open>The remote gender cache\<close>

text \<open>
  A promise is modelled by its state. The transport (the global \<open>fetch\<close>) is outside
  the program: its requests are recorded in \<open>transport_requests\<close>, and it settles by
  the event \<open>settle\<close>, with a result of its choosing.
\<close>

text \<open>
  What a promise of the cache rejects with: the \<open>DOMException\<close> named \<open>AbortError\<close>,
  the rejection of the transport on a network failure, what reading the body throws
  (\<open>response.json()\<close> on a body that is not JSON, \<open>'pronouns' in data\<close> on a body that is
  not an object), and the two errors the callback of l.181-199 throws itself.
\<close>

datatype fetch_error = AbortError | NetworkError | BodyError | GenderHttpError | UnknownGenderFormat

datatype 'a outcome = Pending | Fulfilled 'a | Rejected fetch_error

record Gender =
  gender_pronouns :: Entry

text \<open>
  The value of the \<open>pronouns\<close> property of a response body; the body (\<open>Object p\<close> is a
  JSON object or array, \<open>p\<close> its \<open>pronouns\<close> property if it has one); and the ways the
  transport settles.
\<close>

datatype json = JString string | JArray "json list" | JOther

datatype body = NoJson | NotAnObject | Object "json option"

datatype transport_result = NetworkFailure | TransportAborted | Response bool body

fun json_string :: "json \<Rightarrow> string option" where
  "json_string (JString s) = Some s"
| "json_string _ = None"

text \<open>
  The callback given to \<open>then\<close> (l.181-199), on the \<open>ok\<close> flag and the body of the
  response: the gender, or the error thrown.
\<close>

fun gender_of_response :: "bool \<Rightarrow> body \<Rightarrow> fetch_error + Gender" where
  "gender_of_response False b = Inl GenderHttpError"
| "gender_of_response True NoJson = Inl BodyError"
| "gender_of_response True NotAnObject = Inl BodyError"
| "gender_of_response True (Object None) = Inl UnknownGenderFormat"
| "gender_of_response True (Object (Some (JString s))) =
     (case lookupPronouns s of
        Some p \<Rightarrow> Inr \<lparr>gender_pronouns = p\<rparr>
      | None \<Rightarrow> Inl UnknownGenderFormat)"
| "gender_of_response True (Object (Some (JArray vs))) =
     (if length vs \<ge> 2 then
        (case those (map json_string vs) of
           Some ws \<Rightarrow> Inr \<lparr>gender_pronouns = map Lit ws\<rparr>
         | None \<Rightarrow> Inl UnknownGenderFormat)
      else Inl UnknownGenderFormat)"
| "gender_of_response True (Object (Some JOther)) = Inl UnknownGenderFormat"

definition outcome_of :: "transport_result \<Rightarrow> Gender outcome" where
  "outcome_of t =
    (case t of
       NetworkFailure \<Rightarrow> Rejected NetworkError
     | TransportAborted \<Rightarrow> Rejected AbortError
     | Response ok b \<Rightarrow> (case gender_of_response ok b of Inl e \<Rightarrow> Rejected e | Inr g \<Rightarrow> Fulfilled g))"

text \<open>
  One entry of \<open>genderRequests\<close>, the pair \<open>[promise, abortMux]\<close>, with what the
  closures of the call that made it share: \<open>promise\<close> is the state of the stored
  promise, \<open>mux_count\<close> and \<open>mux_aborted\<close> are \<open>abortMux._count\<close> and
  \<open>abortMux.signal.aborted\<close> (the signal given to the transport), \<open>listener_signal\<close>
  is the caller's signal that got the \<open>abort\<close> listener of l.169, \<open>abortPromise\<close> the
  state of the promise that listener rejects, and \<open>race\<close> the state of
  \<open>Promise.race([promise, abortPromise])\<close>: the first of the two to settle.
\<close>

type_synonym signal = nat

record request =
  promise :: "Gender outcome"
  mux_count :: int
  mux_aborted :: bool
  listener_signal :: signal
  abortPromise :: "Gender outcome"
  race :: "Gender outcome"

record GenderCache =
  genderRequests :: "string \<rightharpoonup> request"
  transport_requests :: "string list"
  aborted_signals :: "signal set"

definition newGenderCache :: "GenderCache" where
  "newGenderCache = \<lparr>genderRequests = Map.empty, transport_requests = [], aborted_signals = {}\<rparr>"

text \<open>The promise a call of \<open>fetch\<close> returns: the stored one, or the race.\<close>

datatype returned = Shared string | Race string

definition promise_state :: "GenderCache \<Rightarrow> returned \<Rightarrow> Gender outcome" where
  "promise_state c p =
    (case p of
       Shared u \<Rightarrow> (case genderRequests c u of Some r \<Rightarrow> promise r | None \<Rightarrow> Pending)
     | Race u \<Rightarrow> (case genderRequests c u of Some r \<Rightarrow> race r | None \<Rightarrow> Pending))"

text \<open>\<open>AbortControllerMux\<close>: \<open>bump\<close>, and \<open>abort\<close> with \<open>super.abort\<close> at a count of zero or less.\<close>

definition bump :: "request \<Rightarrow> request" where
  "bump r = r\<lparr>mux_count := mux_count r + 1\<rparr>"

definition mux_abort :: "request \<Rightarrow> request" where
  "mux_abort r =
    (let r' = r\<lparr>mux_count := mux_count r - 1\<rparr>
     in if mux_count r' \<le> 0 then r'\<lparr>mux_aborted := True\<rparr> else r')"

text \<open>The listener of l.169-172: \<open>abortMux.abort()\<close>, then \<open>reject\<close> of \<open>abortPromise\<close>.\<close>

definition abort_listener :: "request \<Rightarrow> request" where
  "abort_listener r =
    (let r' = mux_abort r
     in r'\<lparr>abortPromise := Rejected AbortError,
           race := (if race r' = Pending then Rejected AbortError else race r')\<rparr>)"

definition fetch :: "string \<Rightarrow> signal \<Rightarrow> GenderCache \<Rightarrow> returned \<times> GenderCache" where
  "fetch uri sig c =
    (case genderRequests c uri of
       Some r \<Rightarrow> (Shared uri, c\<lparr>genderRequests := (genderRequests c)(uri \<mapsto> bump r)\<rparr>)
     | None \<Rightarrow>
         (Race uri,
          c\<lparr>genderRequests := (genderRequests c)(uri \<mapsto>
               \<lparr>promise = Pending, mux_count = 1, mux_aborted = False, listener_signal = sig,
                abortPromise = Pending, race = Pending\<rparr>),
            transport_requests := transport_requests c @ [uri]\<rparr>))"

text \<open>
  A caller's signal fires its \<open>abort\<close> event, once: every listener added to it runs.
  A listener added to a signal that has fired already never runs.
\<close>

definition abort_signal :: "signal \<Rightarrow> GenderCache \<Rightarrow> GenderCache" where
  "abort_signal sig c =
    (if sig \<in> aborted_signals c then c
     else c\<lparr>aborted_signals := insert sig (aborted_signals c),
            genderRequests := (\<lambda>u. case genderRequests c u of
                                      None \<Rightarrow> None
                                    | Some r \<Rightarrow> Some (if listener_signal r = sig then abort_listener r else r))\<rparr>)"

text \<open>The transport operation of \<open>uri\<close> settles, and \<open>promise\<close> with it.\<close>

definition settle :: "string \<Rightarrow> transport_result \<Rightarrow> GenderCache \<Rightarrow> GenderCache" where
  "settle uri t c =
    (case genderRequests c uri of
       Some r \<Rightarrow>
         (if promise r = Pending
          then c\<lparr>genderRequests := (genderRequests c)(uri \<mapsto>
                   r\<lparr>promise := outcome_of t,
                     race := (if race r = Pending then outcome_of t else race r)\<rparr>)\<rparr>
          else c)
     | None \<Rightarrow> c)"

section \<open>The identity element\<close>

text \<open>
  \<open>PIdElement\<close>, as far as loading a gender goes: its fields, the events it has
  dispatched, and the promises \<open>_loadGender\<close> has attached its callbacks to. Every
  \<open>new AbortController()\<close> takes a fresh signal from \<open>next_signal\<close>.
\<close>

datatype load_error = UnknownGenderSource string | FetchFailed fetch_error

datatype event = GenderUpdated PronounData | ErrorEvent load_error

record PIdElement =
  pid_value :: string
  loadedPronouns :: "Entry option"
  abortController :: "signal option"
  dispatched :: "event list"
  awaiting :: "returned list"

record world =
  element :: PIdElement
  defaultGenderCache :: GenderCache
  next_signal :: signal

definition pronounData :: "PIdElement \<Rightarrow> PronounData" where
  "pronounData el = \<lparr>identity = pid_value el, data_pronouns = loadedPronouns el\<rparr>"

definition dispatchEvent :: "event \<Rightarrow> world \<Rightarrow> world" where
  "dispatchEvent ev w = w\<lparr>element := (element w)\<lparr>dispatched := dispatched (element w) @ [ev]\<rparr>\<rparr>"

definition emitGenderError :: "load_error \<Rightarrow> world \<Rightarrow> world" where
  "emitGenderError e w = dispatchEvent (ErrorEvent e) w"

definition cancelGender :: "world \<Rightarrow> world" where
  "cancelGender w =
    (case abortController (element w) of
       Some sig \<Rightarrow> w\<lparr>defaultGenderCache := abort_signal sig (defaultGenderCache w),
                     element := (element w)\<lparr>abortController := None\<rparr>\<rparr>
     | None \<Rightarrow> w)"

text \<open>
  \<open>_loadGender\<close>. After \<open>_emitGenderError\<close> for an empty provider there is no
  \<open>return\<close>: the function goes on to the fetch.
\<close>

definition loadGender :: "string \<Rightarrow> world \<Rightarrow> world" where
  "loadGender src w0 =
    (let w = cancelGender w0;
         colonIndex = indexOf src (CHR '':'')
     in if colonIndex = -1 then
          (let gender = (case lookupPronouns src of Some g \<Rightarrow> Some g | None \<Rightarrow> map_of pronouns ''unknown'');
               w1 = w\<lparr>element := (element w)\<lparr>loadedPronouns := gender\<rparr>\<rparr>
           in dispatchEvent (GenderUpdated (pronounData (element w1))) w1)
        else
          (let provider = take (nat colonIndex) src;
               w1 = (if provider = [] then emitGenderError (UnknownGenderSource src) w else w);
               sig = next_signal w1;
               w2 = w1\<lparr>next_signal := sig + 1,
                       element := (element w1)\<lparr>abortController := Some sig\<rparr>\<rparr>;
               (p, c) = fetch src sig (defaultGenderCache w2)
           in w2\<lparr>defaultGenderCache := c,
                 element := (element w2)\<lparr>awaiting := awaiting (element w2) @ [p]\<rparr>\<rparr>))"

text \<open>
  The callbacks \<open>_loadGender\<close> gives to \<open>then\<close> (l.532-543), run for a promise that
  has settled.
\<close>

definition loaded :: "returned \<Rightarrow> world \<Rightarrow> world" where
  "loaded p w =
    (case promise_state (defaultGenderCache w) p of
       Pending \<Rightarrow> w
     | Fulfilled gender \<Rightarrow>
         (let w1 = w\<lparr>element := (element w)\<lparr>loadedPronouns := Some (gender_pronouns gender)\<rparr>\<rparr>
          in dispatchEvent (GenderUpdated (pronounData (element w1))) w1)
     | Rejected e \<Rightarrow> (if e = AbortError then w else emitGenderError (FetchFailed e) w))"

definition newWorld :: "world" where
  "newWorld =
    \<lparr>element = \<lparr>pid_value = [], loadedPronouns = None, abortController = None,
                 dispatched = [], awaiting = []\<rparr>,
     defaultGenderCache = newGenderCache, next_signal = 0\<rparr>"

section \<open>Properties of the arrays and of the table\<close>

lemma indexOf_ge: "-1 \<le> indexOf xs x"
  by (induction xs) (auto simp: Let_def)

lemma indexOf_absent: "indexOf xs x = -1 \<longleftrightarrow> x \<notin> set xs"
proof (induction xs)
  case Nil
  then show ?case by simp
next
  case (Cons y ys)
  have "indexOf ys x + 1 \<noteq> -1" using indexOf_ge [of ys x] by arith
  with Cons show ?case by (auto simp: Let_def)
qed

lemma indexOf_first:
  "x \<in> set xs \<Longrightarrow>
     0 \<le> indexOf xs x \<and> nat (indexOf xs x) < length xs \<and> xs ! nat (indexOf xs x) = x \<and>
     (\<forall>j < nat (indexOf xs x). xs ! j \<noteq> x)"
proof (induction xs)
  case Nil
  then show ?case by simp
next
  case (Cons y ys)
  show ?case
  proof (cases "y = x")
    case True
    then show ?thesis by simp
  next
    case False
    with Cons.prems have mem: "x \<in> set ys" by simp
    note ih = Cons.IH [OF mem]
    have ne: "indexOf ys x \<noteq> -1" using mem by (simp add: indexOf_absent)
    have eq: "indexOf (y # ys) x = indexOf ys x + 1" using False ne by (simp add: Let_def)
    have n: "nat (indexOf ys x + 1) = Suc (nat (indexOf ys x))" using ih by arith
    show ?thesis unfolding eq n using ih False
      by (auto simp: nth_Cons split: nat.splits)
  qed
qed

lemma options_filter:
  "filter (\<lambda>i. i \<noteq> -1) (map (\<lambda>p. indexOf p x) es) = map (\<lambda>p. indexOf p x) (filter (\<lambda>e. x \<in> set e) es)"
  by (induction es) (auto simp: indexOf_absent)

lemma positions_Nil: "positions e w = [] \<longleftrightarrow> Lit w \<notin> set e"
  by (auto simp: positions_def filter_empty_conv in_set_conv_nth)

lemma positions_single:
  assumes "positions e w = [i]"
  shows "Lit w \<in> set e \<and> indexOf e (Lit w) = int i"
proof -
  have mem: "Lit w \<in> set e" using assms positions_Nil [of e w] by auto
  note f = indexOf_first [OF mem]
  let ?k = "nat (indexOf e (Lit w))"
  have "?k \<in> set (positions e w)" using f by (simp add: positions_def)
  then have "?k = i" using assms by simp
  then show ?thesis using mem f by auto
qed

lemma slots_single:
  "concat (map (\<lambda>(k, e). map (Pair k) (positions e w)) tbl) = [(k, i)] \<Longrightarrow>
   \<exists>e. filter (\<lambda>(k, e). Lit w \<in> set e) tbl = [(k, e)] \<and> positions e w = [i]"
proof (induction tbl)
  case Nil
  then show ?case by simp
next
  case (Cons a tbl)
  obtain k' e' where a: "a = (k', e')" by (cases a)
  show ?case
  proof (cases "positions e' w = []")
    case True
    then have "Lit w \<notin> set e'" by (simp add: positions_Nil)
    then show ?thesis using Cons a True by simp
  next
    case False
    from Cons.prems a have app: "map (Pair k') (positions e' w) @ concat (map (\<lambda>(k, e). map (Pair k) (positions e w)) tbl) = [(k, i)]"
      by simp
    from False app have one: "map (Pair k') (positions e' w) = [(k, i)]"
      and rest: "concat (map (\<lambda>(k, e). map (Pair k) (positions e w)) tbl) = []"
      by (auto simp: append_eq_Cons_conv)
    from one have p: "positions e' w = [i]" and kk: "k' = k" by (auto simp: map_eq_Cons_conv)
    from rest have "\<forall>(k, e) \<in> set tbl. positions e w = []" by auto
    then have "filter (\<lambda>(k, e). Lit w \<in> set e) tbl = []"
      by (auto simp: filter_empty_conv positions_Nil)
    moreover have "Lit w \<in> set e'" using False by (simp add: positions_Nil)
    ultimately show ?thesis using a p kk by simp
  qed
qed

lemma table_entries_five: "(k, e) \<in> set pronouns \<Longrightarrow> length e = 5"
  by (auto simp: pronouns_def lits_def)

section \<open>Inferring the form of a sample word\<close>

text \<open>
  The options of \<open>inferForm\<close> are the first positions of the word in the entries that
  hold it: one option per entry, however many of the entry's slots hold the word.
\<close>

lemma inferForm_options:
  "inferForm sample =
    (let options = map (\<lambda>p. indexOf p (Lit (toLowerCase sample))) (map snd (entries_holding (toLowerCase sample)))
     in if length options = 1 then at_index ENTRY_FORMATS (hd options) else None)"
  unfolding inferForm_def entries_holding_def Let_def options_filter
  by (simp add: filter_map comp_def case_prod_unfold)

lemma inferForm_none: "length (entries_holding (toLowerCase sample)) \<noteq> 1 \<Longrightarrow> inferForm sample = None"
  by (simp add: inferForm_options)

lemma inferForm_one_entry:
  assumes "entries_holding (toLowerCase sample) = [(k, e)]"
  shows "\<exists>i<5. e ! i = Lit (toLowerCase sample) \<and> (\<forall>j<i. e ! j \<noteq> Lit (toLowerCase sample)) \<and>
           indexOf e (Lit (toLowerCase sample)) = int i \<and>
           inferForm sample = Some (ENTRY_FORMATS ! i)"
proof -
  let ?w = "toLowerCase sample"
  have "(k, e) \<in> set (entries_holding ?w)" using assms by simp
  then have tbl: "(k, e) \<in> set pronouns" and mem: "Lit ?w \<in> set e"
    by (auto simp: entries_holding_def)
  have len: "length e = 5" using tbl by (rule table_entries_five)
  note f = indexOf_first [OF mem]
  let ?i = "nat (indexOf e (Lit ?w))"
  have i5: "?i < 5" using f len by simp
  have inf: "inferForm sample = at_index ENTRY_FORMATS (indexOf e (Lit ?w))"
    by (simp add: inferForm_options assms)
  have "at_index ENTRY_FORMATS (indexOf e (Lit ?w)) = Some (ENTRY_FORMATS ! ?i)"
    using f i5 by (simp add: at_index_def ENTRY_FORMATS_def)
  with inf f i5 show ?thesis by (intro exI [of _ ?i]) simp
qed

lemma inferForm_one_slot:
  assumes "slots_holding (toLowerCase sample) = [(k, i)]"
  shows "inferForm sample = Some (ENTRY_FORMATS ! i)"
proof -
  let ?w = "toLowerCase sample"
  from assms have "concat (map (\<lambda>(k, e). map (Pair k) (positions e ?w)) pronouns) = [(k, i)]"
    by (simp add: slots_holding_def)
  from slots_single [OF this]
  obtain e where eh: "entries_holding ?w = [(k, e)]" and p: "positions e ?w = [i]"
    by (auto simp: entries_holding_def)
  from inferForm_one_entry [OF eh] positions_single [OF p] show ?thesis by auto
qed

text \<open>
  Claim C6, as the code has it. \<open>inferForm\<close> lower-cases the sample. It returns absent
  when no entry of the table, or more than one entry, holds the word. When exactly one
  entry holds the word, it returns the form of the first slot of that entry holding
  it, also when further slots of the same entry hold it. In particular, a word in
  exactly one slot of the whole table gets the form of that slot.
\<close>

theorem inferForm_by_entries:
  "(length (entries_holding (toLowerCase sample)) \<noteq> 1 \<longrightarrow> inferForm sample = None) \<and>
   (\<forall>k e. entries_holding (toLowerCase sample) = [(k, e)] \<longrightarrow>
      (\<exists>i<5. e ! i = Lit (toLowerCase sample) \<and> (\<forall>j<i. e ! j \<noteq> Lit (toLowerCase sample)) \<and>
              inferForm sample = Some (ENTRY_FORMATS ! i))) \<and>
   (\<forall>k i. slots_holding (toLowerCase sample) = [(k, i)] \<longrightarrow> inferForm sample = Some (ENTRY_FORMATS ! i))"
proof (intro conjI allI impI)
  assume "length (entries_holding (toLowerCase sample)) \<noteq> 1"
  then show "inferForm sample = None" by (rule inferForm_none)
next
  fix k e assume "entries_holding (toLowerCase sample) = [(k, e)]"
  from inferForm_one_entry [OF this]
  show "\<exists>i<5. e ! i = Lit (toLowerCase sample) \<and> (\<forall>j<i. e ! j \<noteq> Lit (toLowerCase sample)) \<and>
              inferForm sample = Some (ENTRY_FORMATS ! i)" by blast
next
  fix k i assume "slots_holding (toLowerCase sample) = [(k, i)]"
  then show "inferForm sample = Some (ENTRY_FORMATS ! i)" by (rule inferForm_one_slot)
qed

lemma lower_Her: "toLowerCase ''Her'' = ''her''" by code_simp
lemma lower_ZE: "toLowerCase ''ZE'' = ''ze''" by code_simp
lemma lower_Theirs: "toLowerCase ''Theirs'' = ''theirs''" by code_simp

lemma eh_her: "entries_holding ''her'' = [(''she'', lits [''she'', ''her'', ''her'', ''hers'', ''herself''])]"
  by code_simp
lemma eh_ze: "length (entries_holding ''ze'') = 2"
  by code_simp
lemma sh_theirs: "slots_holding ''theirs'' = [(''they'', 3)]"
  by code_simp

text \<open>
  Claim C6 as stated fails: the word "her" stands in two slots of the table (the
  object and the possessive-adjective slot of the entry "she"), and \<open>inferForm\<close> does
  not return absent for it but the form \<open>o\<close>.
\<close>

theorem inferForm_her_counterexample:
  "slots_holding (toLowerCase ''her'') = [(''she'', 1), (''she'', 2)] \<and> inferForm ''her'' = Some ''o''"
  by code_simp

theorem inferForm_by_entries_witness:
  "length (entries_holding (toLowerCase ''ZE'')) = 2 \<and> inferForm ''ZE'' = None \<and>
   entries_holding (toLowerCase ''Her'') = [(''she'', lits [''she'', ''her'', ''her'', ''hers'', ''herself''])] \<and>
   inferForm ''Her'' = Some ''o'' \<and>
   slots_holding (toLowerCase ''Theirs'') = [(''they'', 3)] \<and> inferForm ''Theirs'' = Some ''pp''"
proof -
  have a: "length (entries_holding (toLowerCase ''ZE'')) = 2" by (simp add: lower_ZE eh_ze)
  have b: "entries_holding (toLowerCase ''Her'') = [(''she'', lits [''she'', ''her'', ''her'', ''hers'', ''herself''])]"
    by (simp add: lower_Her eh_her)
  have c: "slots_holding (toLowerCase ''Theirs'') = [(''they'', 3)]" by (simp add: lower_Theirs sh_theirs)
  from a inferForm_by_entries [of "''ZE''"] have 1: "inferForm ''ZE'' = None" by simp
  from b inferForm_by_entries [of "''Her''"]
  obtain i where hit: "lits [''she'', ''her'', ''her'', ''hers'', ''herself''] ! i = Lit (toLowerCase ''Her'')"
     and first: "\<forall>j<i. lits [''she'', ''her'', ''her'', ''hers'', ''herself''] ! j \<noteq> Lit (toLowerCase ''Her'')"
     and res: "inferForm ''Her'' = Some (ENTRY_FORMATS ! i)" by blast
  have "i \<noteq> 0" using hit by (cases i) (auto simp: lower_Her lits_def)
  moreover have "\<not> 1 < i" using first by (auto simp: lower_Her lits_def)
  ultimately have "i = 1" by arith
  with res have 2: "inferForm ''Her'' = Some ''o''" by (simp add: ENTRY_FORMATS_def)
  from c inferForm_by_entries [of "''Theirs''"] have 3: "inferForm ''Theirs'' = Some ''pp''"
    by (simp add: ENTRY_FORMATS_def)
  from a b c 1 2 3 show ?thesis by simp
qed

section \<open>Resolving a form\<close>

lemma getPronounInForm_no_data:
  "data_pronouns data = None \<Longrightarrow> getPronounInForm form data fallback = Inr fallback"
  by (simp add: getPronounInForm_def)

lemma getPronounInForm_unknown_form:
  "form \<notin> set ENTRY_FORMATS \<Longrightarrow> getPronounInForm form data fallback = Inr fallback"
  by (simp add: getPronounInForm_def indexOf_absent split: option.splits)

text \<open>
  The one way the resolution throws: a slot holding the empty string, with a fallback
  that starts with an upper-case letter.
\<close>

lemma getPronounInForm_throws:
  assumes "getPronounInForm form data fallback = Inl e"
  shows "\<exists>entry. data_pronouns data = Some entry \<and> Lit [] \<in> set entry \<and> startsWithLu fallback"
proof -
  from assms obtain entry where d: "data_pronouns data = Some entry"
    by (cases "data_pronouns data") (auto simp: getPronounInForm_def)
  let ?i = "indexOf ENTRY_FORMATS form"
  from assms d have "at_index entry ?i = Some (Lit [])" and lu: "startsWithLu fallback"
    by (auto simp: getPronounInForm_def Let_def split: if_splits option.splits slot.splits list.splits)
  then have "Lit [] \<in> set entry"
    by (metis at_index_def nth_mem option.distinct(1) option.inject)
  with d lu show ?thesis by blast
qed

lemma changeGender_total:
  assumes "\<forall>entry. data_pronouns data = Some entry \<longrightarrow> Lit [] \<notin> set entry"
  shows "\<exists>s. changeGender form data fallback = Inr s"
proof (cases "changeGender form data fallback")
  case (Inl e)
  then have "getPronounInForm form data fallback = Inl e"
    by (auto simp: changeGender_def split: if_splits)
  from getPronounInForm_throws [OF this] assms show ?thesis by auto
next
  case (Inr s)
  then show ?thesis by blast
qed

text \<open>
  Claim C7 says that the resolution never fails, also on entries built from a remote
  tuple. The remote tuple \<open>["", ""]\<close> is accepted by the cache as an entry, and
  resolving the subject form on it with the fallback "She" throws a \<open>TypeError\<close>.
\<close>

theorem changeGender_empty_literal_throws:
  "gender_of_response True (Object (Some (JArray [JString [], JString []]))) =
     Inr \<lparr>gender_pronouns = [Lit [], Lit []]\<rparr> \<and>
   changeGender ''s'' \<lparr>identity = ''Sam'', data_pronouns = Some [Lit [], Lit []]\<rparr> ''She'' = Inl TypeError"
  by (simp add: changeGender_def getPronounInForm_def ENTRY_FORMATS_def at_index_def
      startsWithLu_def upperLetters_def)

text \<open>
  Claim C8. For the entries "any" and "unknown" (every slot \<open>ORIGINAL\<close>), resolving a
  grammatical form (s, o, pa, pp, r) returns the fallback, whatever the fallback and
  the identity. For the entry "none" (every slot \<open>NAME\<close>), resolving the form pa with
  the identity "Sam" and the fallback "his" returns "Sam's".
\<close>

theorem sentinel_slots_resolve:
  "(\<forall>form \<in> set ENTRY_FORMATS. \<forall>ident fallback.
      changeGender form \<lparr>identity = ident, data_pronouns = map_of pronouns ''any''\<rparr> fallback = Inr fallback \<and>
      changeGender form \<lparr>identity = ident, data_pronouns = map_of pronouns ''unknown''\<rparr> fallback = Inr fallback) \<and>
   changeGender ''pa'' \<lparr>identity = ''Sam'', data_pronouns = map_of pronouns ''none''\<rparr> ''his'' =
     Inr (''Sam'' @ [CHR 0x27] @ ''s'')"
  by (simp add: changeGender_def getPronounInForm_def getIdentityInForm_def ENTRY_FORMATS_def
      at_index_def pronouns_def)

theorem sentinel_slots_resolve_witness:
  "''pp'' \<in> set ENTRY_FORMATS \<and>
   changeGender ''pp'' \<lparr>identity = ''Sam'', data_pronouns = map_of pronouns ''any''\<rparr> ''Hers'' = Inr ''Hers'' \<and>
   changeGender ''pp'' \<lparr>identity = ''Sam'', data_pronouns = map_of pronouns ''unknown''\<rparr> ''Hers'' = Inr ''Hers''"
proof -
  have h: "''pp'' \<in> set ENTRY_FORMATS" by (simp add: ENTRY_FORMATS_def)
  from sentinel_slots_resolve h show ?thesis by blast
qed

section \<open>Notifications of the registry\<close>

text \<open>Running tasks leaves the registrants, the listeners and the queue as they are.\<close>

lemma forEach_frame:
  "refMap (forEach throws old new ls m) = refMap m \<and>
   listenerMap (forEach throws old new ls m) = listenerMap m \<and>
   microtasks (forEach throws old new ls m) = microtasks m"
  by (induction ls arbitrary: m) auto

lemma run_task_frame:
  "listenerMap (run_task throws t m) = listenerMap m \<and> microtasks (run_task throws t m) = microtasks m"
  by (cases t) (auto simp: notify_def forEach_frame split: option.splits)

lemma run_tasks_frame:
  "listenerMap (run_tasks throws ts m) = listenerMap m \<and> microtasks (run_tasks throws ts m) = microtasks m"
  by (induction ts arbitrary: m) (auto simp: run_task_frame)

lemma run_tasks_append:
  "run_tasks throws (ts @ us) m = run_tasks throws us (run_tasks throws ts m)"
  by (induction ts arbitrary: m) auto

lemma notify_listeners:
  "listenerMap m r = Some ls \<Longrightarrow> notify throws r old new m = forEach throws old new ls m"
  by (simp add: notify_def)

text \<open>The calls made depend on the listeners and on the calls made so far only.\<close>

lemma forEach_delivered_cong:
  "delivered m = delivered m' \<Longrightarrow>
   delivered (forEach throws old new ls m) = delivered (forEach throws old new ls m')"
proof (induction ls arbitrary: m m')
  case Nil
  then show ?case by simp
next
  case (Cons g ls)
  have e: "delivered (m\<lparr>delivered := delivered m @ [(g, old, new)]\<rparr>) =
           delivered (m'\<lparr>delivered := delivered m' @ [(g, old, new)]\<rparr>)"
    using Cons.prems by simp
  show ?case
  proof (cases "throws (delivered m) g old new")
    case True
    then show ?thesis using Cons.prems by simp
  next
    case False
    moreover from False have "\<not> throws (delivered m') g old new" using Cons.prems by simp
    ultimately show ?thesis using Cons.IH [OF e] by simp
  qed
qed

lemma run_task_delivered_cong:
  assumes "listenerMap m = listenerMap m'" and "delivered m = delivered m'"
  shows "delivered (run_task throws t m) = delivered (run_task throws t m')"
proof (cases t)
  case (Notify r old new)
  show ?thesis
  proof (cases "listenerMap m r")
    case None
    then show ?thesis using assms Notify by (simp add: notify_def)
  next
    case (Some ls)
    then have "listenerMap m' r = Some ls" using assms(1) by simp
    with Some Notify forEach_delivered_cong [OF assms(2), of throws old new ls]
    show ?thesis by (simp add: notify_listeners)
  qed
next
  case (Replay fn el)
  with forEach_delivered_cong [OF assms(2), of throws None el "[fn]"] show ?thesis
    by (simp only: run_task.simps)
qed

lemma run_tasks_delivered_cong:
  "listenerMap m = listenerMap m' \<Longrightarrow> delivered m = delivered m' \<Longrightarrow>
   delivered (run_tasks throws ts m) = delivered (run_tasks throws ts m')"
proof (induction ts arbitrary: m m')
  case Nil
  then show ?case by simp
next
  case (Cons t ts)
  have l: "listenerMap (run_task throws t m) = listenerMap (run_task throws t m')"
    using Cons.prems(1) by (simp add: run_task_frame)
  have d: "delivered (run_task throws t m) = delivered (run_task throws t m')"
    using Cons.prems by (rule run_task_delivered_cong)
  from Cons.IH [OF l d] show ?case by simp
qed

lemma received_call:
  "received fn (m\<lparr>delivered := delivered m @ [(g, old, new)]\<rparr>) =
     (if g = fn then received fn m @ [(old, new)] else received fn m)"
  by (simp add: received_def)

lemma received_uncaught [simp]: "received fn (m\<lparr>uncaught := u\<rparr>) = received fn m"
  by (simp add: received_def)

text \<open>A listener that is not in the set is not called.\<close>

lemma forEach_not_called:
  "fn \<notin> set ls \<Longrightarrow> received fn (forEach throws old new ls m) = received fn m"
proof (induction ls arbitrary: m)
  case Nil
  then show ?case by simp
next
  case (Cons g ls)
  then have "g \<noteq> fn" and "fn \<notin> set ls" by auto
  with Cons.IH show ?case by (simp add: received_call del: RefManager.simps)
qed

text \<open>
  A listener of the set is called, once, when no listener ahead of it in the set
  throws.
\<close>

lemma forEach_called:
  assumes "distinct ls" and "fn \<in> set ls"
    and "\<forall>h g. g \<in> set (takeWhile (\<lambda>g. g \<noteq> fn) ls) \<longrightarrow> \<not> throws h g old new"
  shows "received fn (forEach throws old new ls m) = received fn m @ [(old, new)]"
  using assms
proof (induction ls arbitrary: m)
  case Nil
  then show ?case by simp
next
  case (Cons g ls)
  let ?m = "m\<lparr>delivered := delivered m @ [(g, old, new)]\<rparr>"
  show ?case
  proof (cases "g = fn")
    case True
    with Cons.prems(1) have "fn \<notin> set ls" by simp
    then have "received fn (forEach throws old new ls ?m) = received fn ?m"
      by (rule forEach_not_called)
    moreover have "received fn ?m = received fn m @ [(old, new)]"
      using True by (simp add: received_call)
    moreover have "received fn (?m\<lparr>uncaught := uncaught m @ [(g, old, new)]\<rparr>) = received fn ?m"
      by (rule received_uncaught)
    ultimately show ?thesis by (simp del: RefManager.simps)
  next
    case False
    with Cons.prems have d: "distinct ls" and mem: "fn \<in> set ls"
      and quiet: "\<forall>h g. g \<in> set (takeWhile (\<lambda>g. g \<noteq> fn) ls) \<longrightarrow> \<not> throws h g old new"
      and g: "\<not> throws (delivered m) g old new"
      by auto
    have "received fn (forEach throws old new ls ?m) = received fn ?m @ [(old, new)]"
      using d mem quiet by (rule Cons.IH)
    moreover have "received fn ?m = received fn m"
      using False by (simp add: received_call)
    ultimately show ?thesis using g by simp
  qed
qed

text \<open>A listener set never holds a function twice, whatever the registry does.\<close>

lemma listeners_distinct_kept:
  assumes "\<forall>r ls. listenerMap m r = Some ls \<longrightarrow> distinct ls"
  shows "\<forall>r ls. listenerMap (on k fn m) r = Some ls \<longrightarrow> distinct ls"
    and "\<forall>r ls. listenerMap (off k fn m) r = Some ls \<longrightarrow> distinct ls"
    and "\<forall>r ls. listenerMap (add k el m) r = Some ls \<longrightarrow> distinct ls"
    and "\<forall>r ls. listenerMap (remove k el m) r = Some ls \<longrightarrow> distinct ls"
    and "\<forall>r ls. listenerMap (run_microtasks throws m) r = Some ls \<longrightarrow> distinct ls"
  using assms
  by (auto simp: on_def off_def add_def remove_def run_microtasks_def run_tasks_frame queueMicrotask_def
      set_add_def set_delete_def Let_def distinct_removeAll split: option.splits if_splits)

lemma add_add_remove_state:
  assumes "refMap m k = None" and "a \<noteq> b"
  shows "remove k a (add k b (add k a m)) =
           m\<lparr>refMap := (refMap m)(k \<mapsto> [b]),
             microtasks := microtasks m @ [Notify k None (Some a), Notify k (Some a) (Some b)]\<rparr>"
  using assms
  by (simp add: add_def remove_def queueMicrotask_def set_add_def set_delete_def get_def Let_def)

text \<open>
  Claim C5, as the code has it. For a key \<open>k\<close> with no registrant and a listener
  subscribed to it, the calls \<open>add(k, A)\<close>, \<open>add(k, B)\<close>, \<open>remove(k, A)\<close> (\<open>A\<close> and
  \<open>B\<close> distinct) queue exactly the two notifications (absent, A) and (A, B), in this
  order, after what was queued before. Once the queue has run, the listener has been
  called with exactly these two, in this order, after the calls it was owed before,
  provided that no listener ahead of it in the listener set of \<open>k\<close> throws when called
  with one of the two.
\<close>

theorem registry_add_add_remove:
  assumes "refMap m k = None" and "listenerMap m k = Some ls" and "distinct ls" and "fn \<in> set ls"
    and "a \<noteq> b"
    and "\<forall>h g. g \<in> set (takeWhile (\<lambda>g. g \<noteq> fn) ls) \<longrightarrow>
                 \<not> throws h g None (Some a) \<and> \<not> throws h g (Some a) (Some b)"
  shows "microtasks (remove k a (add k b (add k a m))) =
           microtasks m @ [Notify k None (Some a), Notify k (Some a) (Some b)] \<and>
         received fn (run_microtasks throws (remove k a (add k b (add k a m)))) =
           received fn (run_microtasks throws m) @ [(None, Some a), (Some a, Some b)]"
proof -
  let ?m = "remove k a (add k b (add k a m))"
  let ?R = "(refMap m)(k \<mapsto> [b])"
  let ?base = "run_microtasks throws m"
  note st = add_add_remove_state [OF assms(1) assms(5)]
  have q: "microtasks ?m = microtasks m @ [Notify k None (Some a), Notify k (Some a) (Some b)]"
    by (simp add: st)
  let ?s = "run_tasks throws (microtasks m) (?m\<lparr>microtasks := []\<rparr>)"
  have run: "run_microtasks throws ?m =
               notify throws k (Some a) (Some b) (notify throws k None (Some a) ?s)"
    by (simp add: run_microtasks_def q run_tasks_append)
  have lm0: "listenerMap ?s k = Some ls"
    by (simp add: run_tasks_frame st assms(2))
  have "delivered ?s = delivered ?base"
    unfolding run_microtasks_def by (rule run_tasks_delivered_cong) (simp_all add: st)
  then have r0: "received fn ?s = received fn ?base" by (simp add: received_def)
  have q1: "\<forall>h g. g \<in> set (takeWhile (\<lambda>g. g \<noteq> fn) ls) \<longrightarrow> \<not> throws h g None (Some a)"
    and q2: "\<forall>h g. g \<in> set (takeWhile (\<lambda>g. g \<noteq> fn) ls) \<longrightarrow> \<not> throws h g (Some a) (Some b)"
    using assms(6) by blast+
  let ?t = "notify throws k None (Some a) ?s"
  have r2: "received fn ?t = received fn ?s @ [(None, Some a)]"
    unfolding notify_listeners [OF lm0]
    by (rule forEach_called [where throws = throws, OF assms(3) assms(4) q1])
  have lm2: "listenerMap ?t k = Some ls"
    unfolding notify_listeners [OF lm0] by (simp add: forEach_frame lm0)
  have r3: "received fn (notify throws k (Some a) (Some b) ?t) = received fn ?t @ [(Some a, Some b)]"
    unfolding notify_listeners [OF lm2]
    by (rule forEach_called [where throws = throws, OF assms(3) assms(4) q2])
  from q run r0 r2 r3 show ?thesis by simp
qed


theorem registry_add_add_remove_witness:
  "refMap (on ''k'' (1::nat) (on ''k'' 0 (newRefManager :: (nat, nat) RefManager))) ''k'' = None \<and>
   listenerMap (on ''k'' (1::nat) (on ''k'' 0 (newRefManager :: (nat, nat) RefManager))) ''k'' = Some [0, 1] \<and>
   takeWhile (\<lambda>g. g \<noteq> 1) [0, 1::nat] = [0] \<and>
   received (1::nat) (run_microtasks (throws_on 1 (Some 7))
     (remove ''k'' (7::nat) (add ''k'' 8 (add ''k'' 7 (on ''k'' 1 (on ''k'' 0 newRefManager)))))) =
     [(None, None), (None, Some 7), (Some 7, Some 8)]"
proof -
  let ?m = "on ''k'' (1::nat) (on ''k'' 0 (newRefManager :: (nat, nat) RefManager))"
  let ?throws = "throws_on 1 (Some 7) :: (nat, nat) throws"
  have 1: "refMap ?m ''k'' = None" by (simp add: on_def newRefManager_def queueMicrotask_def)
  have 2: "listenerMap ?m ''k'' = Some [0, 1]"
    by (simp add: on_def newRefManager_def queueMicrotask_def set_add_def)
  have 3: "distinct [0, 1::nat]" "(1::nat) \<in> set [0, 1]" "(7::nat) \<noteq> 8" by simp_all
  have 4: "takeWhile (\<lambda>g. g \<noteq> 1) [0, 1::nat] = [0]" by simp
  have 5: "\<forall>h g. g \<in> set (takeWhile (\<lambda>g. g \<noteq> 1) [0, 1::nat]) \<longrightarrow>
             \<not> ?throws h g None (Some 7) \<and> \<not> ?throws h g (Some 7) (Some 8)"
    by (simp add: throws_on_def)
  have 6: "received 1 (run_microtasks ?throws ?m) = [(None, None)]"
    by code_simp
  from registry_add_add_remove [OF 1 2 3 5] 1 2 4 6 show ?thesis by simp
qed

text \<open>
  Claim C5 as stated fails. Two listeners are subscribed to \<open>k\<close>, and the first
  throws when told of the new holder \<open>A\<close> (here 7). After the three calls the second
  listener, subscribed before them, has got its replay and (A, B) only: the call of the
  first listener with (absent, A) ended the \<open>forEach\<close> of that notification.
\<close>

theorem registry_throwing_listener_counterexample:
  "refMap (on ''k'' (1::nat) (on ''k'' 0 (newRefManager :: (nat, nat) RefManager))) ''k'' = None \<and>
   listenerMap (on ''k'' (1::nat) (on ''k'' 0 (newRefManager :: (nat, nat) RefManager))) ''k'' = Some [0, 1] \<and>
   received (1::nat) (run_microtasks (throws_on 0 (Some 7))
     (remove ''k'' (7::nat) (add ''k'' 8 (add ''k'' 7 (on ''k'' 1 (on ''k'' 0 newRefManager)))))) =
     [(None, None), (Some 7, Some 8)]"
  by code_simp

section \<open>Sharing and cancelling a fetch\<close>

lemma fetch_new:
  "genderRequests c u = None \<Longrightarrow>
   fetch u sig c =
     (Race u,
      c\<lparr>genderRequests := (genderRequests c)(u \<mapsto>
           \<lparr>promise = Pending, mux_count = 1, mux_aborted = False, listener_signal = sig,
            abortPromise = Pending, race = Pending\<rparr>),
        transport_requests := transport_requests c @ [u]\<rparr>)"
  by (simp add: fetch_def)

lemma fetch_join:
  "genderRequests c u = Some r \<Longrightarrow>
   fetch u sig c = (Shared u, c\<lparr>genderRequests := (genderRequests c)(u \<mapsto> bump r)\<rparr>)"
  by (simp add: fetch_def)

text \<open>A caller that joins: its signal is not looked at.\<close>

lemma fetch_join_ignores_signal:
  "genderRequests c u = Some r \<Longrightarrow> fetch u sig c = fetch u sig' c"
  by (simp add: fetch_def)

lemma transport_requests_abort_signal [simp]:
  "transport_requests (abort_signal sig c) = transport_requests c"
  by (simp add: abort_signal_def)

lemma transport_requests_settle [simp]:
  "transport_requests (settle u t c) = transport_requests c"
  by (simp add: settle_def split: option.splits)

text \<open>No event takes an entry out of the request map.\<close>

lemma genderRequests_kept:
  assumes "genderRequests c u \<noteq> None"
  shows "genderRequests (snd (fetch v sig c)) u \<noteq> None"
    and "genderRequests (abort_signal sig c) u \<noteq> None"
    and "genderRequests (settle v t c) u \<noteq> None"
  using assms
  by (auto simp: fetch_def abort_signal_def settle_def split: option.splits)

text \<open>
  A caller alone: when its signal fires, the transport is aborted and its promise
  rejects. Two callers: after both signals have fired the transport is not aborted. A
  joined caller: when its signal fires, its promise is as the stored promise was.
\<close>

lemma sole_caller_cancel_aborts:
  assumes "genderRequests c u = None" and "sig \<notin> aborted_signals c"
  shows "map_option mux_aborted (genderRequests (abort_signal sig (snd (fetch u sig c))) u) = Some True \<and>
         promise_state (abort_signal sig (snd (fetch u sig c))) (fst (fetch u sig c)) = Rejected AbortError"
  using assms
  by (simp add: fetch_def abort_signal_def abort_listener_def mux_abort_def promise_state_def Let_def)

lemma two_callers_cancel:
  assumes "genderRequests c u = None" and "sig1 \<notin> aborted_signals c"
  shows "map_option mux_aborted
           (genderRequests (abort_signal sig2 (abort_signal sig1 (snd (fetch u sig2 (snd (fetch u sig1 c)))))) u)
         = Some False"
  using assms
  by (simp add: fetch_def abort_signal_def abort_listener_def mux_abort_def bump_def Let_def)

lemma joined_promise_ignores_own_signal:
  assumes "genderRequests c u = Some r" and "listener_signal r \<noteq> sig"
  shows "promise_state (abort_signal sig (snd (fetch u sig c))) (fst (fetch u sig c)) = promise r"
  using assms
  by (simp add: fetch_def abort_signal_def bump_def promise_state_def)

text \<open>
  Claim C1. For a source with no entry yet, two calls of \<open>fetch\<close> with that source
  make exactly one transport request. When the first caller's signal then fires, the
  signal given to the transport is not aborted, the first caller's promise rejects with
  an abort error, the second caller's promise stays pending, and when the transport
  settles the second caller's promise settles with its outcome.
\<close>

theorem concurrent_fetch_shares_transport:
  assumes "genderRequests c u = None" and "sig1 \<notin> aborted_signals c"
  shows "let (p1, c1) = fetch u sig1 c;
             (p2, c2) = fetch u sig2 c1;
             c3 = abort_signal sig1 c2;
             c4 = settle u t c3
         in transport_requests c2 = transport_requests c @ [u] \<and>
            transport_requests c4 = transport_requests c @ [u] \<and>
            map_option mux_aborted (genderRequests c3 u) = Some False \<and>
            map_option mux_aborted (genderRequests c4 u) = Some False \<and>
            promise_state c3 p1 = Rejected AbortError \<and>
            promise_state c3 p2 = Pending \<and>
            promise_state c4 p2 = outcome_of t"
  using assms
  by (simp add: fetch_def abort_signal_def settle_def promise_state_def bump_def
      abort_listener_def mux_abort_def Let_def)

theorem concurrent_fetch_shares_transport_witness:
  "genderRequests newGenderCache ''u'' = None \<and> (1::nat) \<notin> aborted_signals newGenderCache \<and>
   transport_requests (snd (fetch ''u'' 2 (snd (fetch ''u'' 1 newGenderCache)))) = [''u''] \<and>
   promise_state
     (settle ''u'' (Response True (Object (Some (JString ''avoid''))))
       (abort_signal 1 (snd (fetch ''u'' 2 (snd (fetch ''u'' 1 newGenderCache))))))
     (fst (fetch ''u'' 2 (snd (fetch ''u'' 1 newGenderCache)))) =
   Fulfilled \<lparr>gender_pronouns = [NAME, NAME, NAME, NAME, NAME]\<rparr>"
proof -
  have 1: "genderRequests newGenderCache ''u'' = None" by (simp add: newGenderCache_def)
  have 2: "(1::nat) \<notin> aborted_signals newGenderCache" by (simp add: newGenderCache_def)
  have 3: "outcome_of (Response True (Object (Some (JString ''avoid'')))) =
             Fulfilled \<lparr>gender_pronouns = [NAME, NAME, NAME, NAME, NAME]\<rparr>"
    by (simp add: outcome_of_def lookupPronouns_def pronounDbMap_def pronouns_def)
  have 4: "transport_requests newGenderCache = []" by (simp add: newGenderCache_def)
  from concurrent_fetch_shares_transport [OF 1 2, of 2 "Response True (Object (Some (JString ''avoid'')))"] 1 2 3 4
  show ?thesis by (simp add: Let_def split_def)
qed

text \<open>
  Claim C2 says that the transport is aborted once every caller has cancelled. With
  two callers of one source, after both signals have fired the signal given to the
  transport is not aborted and the count stands at 1: the second caller was counted by
  \<open>bump\<close>, but no listener was added to its signal.
\<close>

theorem all_callers_cancel_no_abort:
  "map_option mux_aborted
     (genderRequests
       (abort_signal 2 (abort_signal 1 (snd (fetch ''u'' 2 (snd (fetch ''u'' 1 newGenderCache))))))
       ''u'') = Some False \<and>
   map_option mux_count
     (genderRequests
       (abort_signal 2 (abort_signal 1 (snd (fetch ''u'' 2 (snd (fetch ''u'' 1 newGenderCache))))))
       ''u'') = Some 1"
  by (simp add: fetch_def abort_signal_def newGenderCache_def bump_def abort_listener_def
      mux_abort_def Let_def)

text \<open>
  Claim C3 says that a caller that joined a request in flight gets a rejection when its
  own signal fires. The joined caller holds the stored promise itself, and after its
  signal has fired that promise is still pending.
\<close>

theorem joined_caller_cancel_stays_pending:
  "fst (fetch ''u'' 2 (snd (fetch ''u'' 1 newGenderCache))) = Shared ''u'' \<and>
   promise_state
     (abort_signal 2 (snd (fetch ''u'' 2 (snd (fetch ''u'' 1 newGenderCache)))))
     (fst (fetch ''u'' 2 (snd (fetch ''u'' 1 newGenderCache)))) = Pending"
  by (simp add: fetch_def abort_signal_def newGenderCache_def bump_def abort_listener_def
      mux_abort_def Let_def promise_state_def)

text \<open>
  Claim C4 as stated fails: after a fetch of a source has completed (here with a
  failure of the transport), a fresh call for the same source makes no transport
  request; it returns the stored promise, rejected as it is.
\<close>

theorem refetch_after_completion_counterexample:
  "transport_requests
     (snd (fetch ''u'' 2 (settle ''u'' NetworkFailure (snd (fetch ''u'' 1 newGenderCache))))) = [''u''] \<and>
   fst (fetch ''u'' 2 (settle ''u'' NetworkFailure (snd (fetch ''u'' 1 newGenderCache)))) = Shared ''u'' \<and>
   promise_state
     (snd (fetch ''u'' 2 (settle ''u'' NetworkFailure (snd (fetch ''u'' 1 newGenderCache)))))
     (Shared ''u'') = Rejected NetworkError"
  by (simp add: fetch_def settle_def newGenderCache_def bump_def promise_state_def outcome_of_def)

text \<open>
  Claim C4, as the code has it. Once a fetch of a source has been made, its entry stays
  in the request map when the fetch completes, with success or failure; a fresh call
  for the same source makes no new transport request and returns the stored promise,
  settled with the outcome of the first fetch.
\<close>

theorem fetch_after_completion_reuses_entry:
  assumes "genderRequests c u = None"
  shows "let c1 = snd (fetch u sig1 c);
             c2 = settle u t c1;
             (p2, c3) = fetch u sig2 c2
         in genderRequests c2 u \<noteq> None \<and>
            transport_requests c3 = transport_requests c @ [u] \<and>
            p2 = Shared u \<and>
            promise_state c3 p2 = outcome_of t"
  using assms
  by (simp add: fetch_def settle_def promise_state_def bump_def Let_def)

theorem fetch_after_completion_reuses_entry_witness:
  "genderRequests newGenderCache ''u'' = None \<and>
   transport_requests
     (snd (fetch ''u'' 2 (settle ''u'' (Response False NoJson) (snd (fetch ''u'' 1 newGenderCache))))) = [''u''] \<and>
   promise_state
     (snd (fetch ''u'' 2 (settle ''u'' (Response False NoJson) (snd (fetch ''u'' 1 newGenderCache)))))
     (Shared ''u'') = Rejected GenderHttpError"
proof -
  have 1: "genderRequests newGenderCache ''u'' = None" by (simp add: newGenderCache_def)
  have 2: "outcome_of (Response False NoJson) = Rejected GenderHttpError" by (simp add: outcome_of_def)
  have 3: "transport_requests newGenderCache = []" by (simp add: newGenderCache_def)
  from fetch_after_completion_reuses_entry [OF 1, of 1 "Response False NoJson" 2] 1 2 3
  show ?thesis by (auto simp: Let_def split_def)
qed

section \<open>Loading the gender of an identity element\<close>

lemma cancelGender_frame:
  "transport_requests (defaultGenderCache (cancelGender w)) = transport_requests (defaultGenderCache w) \<and>
   dispatched (element (cancelGender w)) = dispatched (element w) \<and>
   awaiting (element (cancelGender w)) = awaiting (element w) \<and>
   pid_value (element (cancelGender w)) = pid_value (element w) \<and>
   abortController (element (cancelGender w)) = None \<and>
   next_signal (cancelGender w) = next_signal w"
  by (simp add: cancelGender_def abort_signal_def split: option.splits)

lemma original_entry_resolves:
  "form \<in> set ENTRY_FORMATS \<Longrightarrow>
   changeGender form \<lparr>identity = ident, data_pronouns = Some [ORIGINAL, ORIGINAL, ORIGINAL, ORIGINAL, ORIGINAL]\<rparr> fallback
     = Inr fallback"
  by (auto simp: changeGender_def getPronounInForm_def ENTRY_FORMATS_def at_index_def)

lemma loadGender_constant:
  assumes "CHR '':'' \<notin> set src"
  shows "loadGender src w =
    (let w' = cancelGender w;
         gender = (case lookupPronouns src of Some g \<Rightarrow> Some g | None \<Rightarrow> map_of pronouns ''unknown'');
         w1 = w'\<lparr>element := (element w')\<lparr>loadedPronouns := gender\<rparr>\<rparr>
     in dispatchEvent (GenderUpdated (pronounData (element w1))) w1)"
proof -
  have "indexOf src (CHR '':'') = -1" using assms by (simp add: indexOf_absent)
  then show ?thesis by (simp add: loadGender_def Let_def)
qed

text \<open>
  Claim C10. Loading a source without a colon that \<open>lookupPronouns\<close> does not resolve
  sets the loaded pronouns to the entry "unknown" (every slot \<open>ORIGINAL\<close>) and
  dispatches one "genderupdated" event, no error event; it makes no transport request
  and waits for no promise. Resolving a grammatical form on the element's pronoun data
  then returns the fallback.
\<close>

theorem unresolved_constant_source_is_unknown:
  assumes "CHR '':'' \<notin> set src" and "lookupPronouns src = None"
  shows "loadedPronouns (element (loadGender src w)) = Some [ORIGINAL, ORIGINAL, ORIGINAL, ORIGINAL, ORIGINAL] \<and>
         dispatched (element (loadGender src w)) =
           dispatched (element w) @ [GenderUpdated (pronounData (element (loadGender src w)))] \<and>
         transport_requests (defaultGenderCache (loadGender src w)) = transport_requests (defaultGenderCache w) \<and>
         awaiting (element (loadGender src w)) = awaiting (element w) \<and>
         (\<forall>form \<in> set ENTRY_FORMATS. \<forall>fallback.
            changeGender form (pronounData (element (loadGender src w))) fallback = Inr fallback)"
proof -
  have u: "map_of pronouns ''unknown'' = Some [ORIGINAL, ORIGINAL, ORIGINAL, ORIGINAL, ORIGINAL]"
    by (simp add: pronouns_def)
  note c = cancelGender_frame [of w]
  have l: "loadedPronouns (element (loadGender src w)) = Some [ORIGINAL, ORIGINAL, ORIGINAL, ORIGINAL, ORIGINAL]"
    by (simp add: loadGender_constant [OF assms(1)] assms(2) u Let_def dispatchEvent_def)
  have d: "dispatched (element (loadGender src w)) =
           dispatched (element w) @ [GenderUpdated (pronounData (element (loadGender src w)))]"
    by (simp add: loadGender_constant [OF assms(1)] assms(2) u Let_def dispatchEvent_def c pronounData_def)
  have t: "transport_requests (defaultGenderCache (loadGender src w)) = transport_requests (defaultGenderCache w)"
    by (simp add: loadGender_constant [OF assms(1)] Let_def dispatchEvent_def c)
  have a: "awaiting (element (loadGender src w)) = awaiting (element w)"
    by (simp add: loadGender_constant [OF assms(1)] Let_def dispatchEvent_def c)
  have r: "\<forall>form \<in> set ENTRY_FORMATS. \<forall>fallback.
            changeGender form (pronounData (element (loadGender src w))) fallback = Inr fallback"
    using original_entry_resolves by (simp add: pronounData_def l)
  from l d t a r show ?thesis by blast
qed

theorem unresolved_constant_source_is_unknown_witness:
  "CHR '':'' \<notin> set ''bogus'' \<and> lookupPronouns ''bogus'' = None \<and>
   loadedPronouns (element (loadGender ''bogus'' newWorld)) = Some [ORIGINAL, ORIGINAL, ORIGINAL, ORIGINAL, ORIGINAL] \<and>
   transport_requests (defaultGenderCache (loadGender ''bogus'' newWorld)) = [] \<and>
   changeGender ''s'' (pronounData (element (loadGender ''bogus'' newWorld))) ''She'' = Inr ''She''"
proof -
  have 1: "CHR '':'' \<notin> set ''bogus''" by simp
  have 2: "lookupPronouns ''bogus'' = None" by (simp add: lookupPronouns_def pronounDbMap_def pronouns_def)
  have 3: "transport_requests (defaultGenderCache newWorld) = []" by (simp add: newWorld_def newGenderCache_def)
  have 4: "''s'' \<in> set ENTRY_FORMATS" by (simp add: ENTRY_FORMATS_def)
  from unresolved_constant_source_is_unknown [OF 1 2, of newWorld] 1 2 3 4 show ?thesis by auto
qed

text \<open>A source that starts with the colon: the error event, and the fetch all the same.\<close>

lemma loadGender_empty_provider:
  "defaultGenderCache (loadGender (CHR '':'' # path) w) =
     snd (fetch (CHR '':'' # path) (next_signal w) (defaultGenderCache (cancelGender w))) \<and>
   dispatched (element (loadGender (CHR '':'' # path) w)) =
     dispatched (element w) @ [ErrorEvent (UnknownGenderSource (CHR '':'' # path))]"
  by (simp add: loadGender_def Let_def split_def emitGenderError_def dispatchEvent_def cancelGender_frame)

text \<open>
  Claim C9 says that a source with an empty provider gives an error and no fetch.
  Loading the source \<open>:x\<close> on a new element dispatches the error event and then makes
  the transport request for \<open>:x\<close>.
\<close>

theorem empty_provider_still_fetches:
  "dispatched (element (loadGender '':x'' newWorld)) = [ErrorEvent (UnknownGenderSource '':x'')] \<and>
   transport_requests (defaultGenderCache (loadGender '':x'' newWorld)) = ['':x''] \<and>
   awaiting (element (loadGender '':x'' newWorld)) = [Race '':x'']"
  by (simp add: loadGender_def Let_def split_def emitGenderError_def dispatchEvent_def cancelGender_def
      newWorld_def newGenderCache_def fetch_def)

end
